theory Spec2Isabelle
  imports Main
begin

section \<open>The store\<close>

text \<open>
  The relational store of \<^verbatim>\<open>schema.sql\<close> and \<^verbatim>\<open>002_add_moderation.sql\<close>. A table is
  the list of its rows in insertion order. Columns restricted by a \<^verbatim>\<open>CHECK (c IN (...))\<close>
  constraint are datatypes with one constructor per admitted text; the functions
  \<open>item_type_text\<close>, \<open>vote_type_text\<close> give the text back. Columns that none of the
  statements below reads or writes (\<^verbatim>\<open>password_hash\<close>, \<^verbatim>\<open>created_at\<close>, \<^verbatim>\<open>url\<close>,
  \<^verbatim>\<open>image_url\<close>, the body of a post) are left out. SQLite integers are modelled as
  \<open>int\<close>.
\<close>

datatype item_type = Post | Comment

datatype vote_type = Up | Down

datatype role = User | Moderator | Admin

datatype report_status = Pending | Reviewed | Dismissed

fun item_type_text :: "item_type \<Rightarrow> string" where
  "item_type_text Post = ''post''"
| "item_type_text Comment = ''comment''"

fun vote_type_text :: "vote_type \<Rightarrow> string" where
  "vote_type_text Up = ''up''"
| "vote_type_text Down = ''down''"

record user_row =
  users_id :: int
  users_username :: string
  users_role :: role
  users_is_banned :: int

record post_row =
  posts_id :: int
  posts_title :: string
  posts_author_id :: int
  posts_votes :: int

record comment_row =
  comments_id :: int
  comments_post_id :: int
  comments_author_id :: int
  comments_body :: string
  comments_votes :: int

record vote_row =
  votes_id :: int
  votes_user_id :: int
  votes_item_id :: int
  votes_item_type :: item_type
  votes_vote_type :: vote_type

record report_row =
  reports_id :: int
  reports_reporter_id :: int
  reports_reported_item_id :: int
  reports_reported_item_type :: item_type
  reports_reason :: "string option"
  reports_status :: report_status

record log_row =
  logs_id :: int
  logs_moderator_id :: int
  logs_action :: string
  logs_target_type :: string
  logs_target_id :: "int option"
  logs_details :: "string option"

text \<open>
  The three \<open>_seq\<close> fields are the \<^verbatim>\<open>sqlite_sequence\<close> entries of the tables that the
  modelled statements insert into (\<^verbatim>\<open>INTEGER PRIMARY KEY AUTOINCREMENT\<close>).
\<close>

record db =
  users :: "user_row list"
  posts :: "post_row list"
  comments :: "comment_row list"
  votes :: "vote_row list"
  reports :: "report_row list"
  moderation_logs :: "log_row list"
  votes_seq :: int
  reports_seq :: int
  moderation_logs_seq :: int

subsection \<open>SQL statements\<close>

text \<open>
  \<^verbatim>\<open>db.get\<close> yields the first row that satisfies the \<^verbatim>\<open>WHERE\<close> clause or
  \<^verbatim>\<open>undefined\<close>; \<^verbatim>\<open>db.all\<close> yields all of them; \<^verbatim>\<open>DELETE\<close> and \<^verbatim>\<open>UPDATE\<close> act on
  every row that satisfies it.
\<close>

definition db_get :: "('r \<Rightarrow> bool) \<Rightarrow> 'r list \<Rightarrow> 'r option" where
  "db_get P rows = find P rows"

definition db_all :: "('r \<Rightarrow> bool) \<Rightarrow> 'r list \<Rightarrow> 'r list" where
  "db_all P rows = filter P rows"

definition db_delete :: "('r \<Rightarrow> bool) \<Rightarrow> 'r list \<Rightarrow> 'r list" where
  "db_delete P rows = filter (\<lambda>r. \<not> P r) rows"

definition db_update :: "('r \<Rightarrow> bool) \<Rightarrow> ('r \<Rightarrow> 'r) \<Rightarrow> 'r list \<Rightarrow> 'r list" where
  "db_update P f rows = map (\<lambda>r. if P r then f r else r) rows"

text \<open>
  The row id an \<^verbatim>\<open>AUTOINCREMENT\<close> table gives to an inserted row: one more than the
  largest id the table ever held, which is the larger of its sequence entry and its
  present ids.
\<close>

definition next_rowid :: "int \<Rightarrow> int list \<Rightarrow> int" where
  "next_rowid seq ids = fold max ids seq + 1"

section \<open>Requests and responses\<close>

text \<open>
  A response is its HTTP status and the fields of the JSON object given to
  \<^verbatim>\<open>res.json\<close>, in the order written. \<^verbatim>\<open>req.user\<close>, as \<^verbatim>\<open>authenticateToken\<close>
  leaves it, is the pair of \<^verbatim>\<open>id\<close> and \<^verbatim>\<open>username\<close>.
\<close>

datatype json = JNull | JNum int | JStr string

record response =
  res_status :: nat
  res_body :: "(string \<times> json) list"

record principal =
  p_id :: int
  p_username :: string

definition json_ok :: "(string \<times> json) list \<Rightarrow> response" where
  "json_ok obj = \<lparr>res_status = 200, res_body = obj\<rparr>"

definition json_error :: "nat \<Rightarrow> string \<Rightarrow> response" where
  "json_error code msg = \<lparr>res_status = code, res_body = [(''error'', JStr msg)]\<rparr>"

text \<open>
  A field of a request body is \<open>None\<close> when it is absent or \<^verbatim>\<open>null\<close>. JavaScript's
  \<^verbatim>\<open>!x\<close> holds of these, of the number 0 and of the empty string.
\<close>

definition falsy_num :: "int option \<Rightarrow> bool" where
  "falsy_num x = (case x of None \<Rightarrow> True | Some n \<Rightarrow> n = 0)"

definition falsy_str :: "string option \<Rightarrow> bool" where
  "falsy_str x = (case x of None \<Rightarrow> True | Some s \<Rightarrow> s = [])"

text \<open>The truth value JavaScript gives to a number read from a column.\<close>

definition truthy :: "int \<Rightarrow> bool" where
  "truthy n = (n \<noteq> 0)"

text \<open>
  \<^verbatim>\<open>['post', 'comment'].includes(itemType)\<close> and \<^verbatim>\<open>['up', 'down'].includes(voteType)\<close>:
  the text that passes is kept as the value it denotes.
\<close>

definition parse_item_type :: "string \<Rightarrow> item_type option" where
  "parse_item_type s =
     (if s = ''post'' then Some Post else if s = ''comment'' then Some Comment else None)"

definition parse_vote_type :: "string \<Rightarrow> vote_type option" where
  "parse_vote_type s =
     (if s = ''up'' then Some Up else if s = ''down'' then Some Down else None)"

section \<open>Votes: \<^verbatim>\<open>POST /api/votes\<close>\<close>

record vote_body =
  itemId :: "int option"
  itemType :: "string option"
  voteType :: "string option"

text \<open>\<^verbatim>\<open>SELECT id FROM ${tableName} WHERE id = ?\<close>\<close>

definition select_item_id :: "db \<Rightarrow> item_type \<Rightarrow> int \<Rightarrow> int option" where
  "select_item_id d t i =
     (case t of
        Post \<Rightarrow> map_option posts_id (db_get (\<lambda>p. posts_id p = i) (posts d))
      | Comment \<Rightarrow> map_option comments_id (db_get (\<lambda>c. comments_id c = i) (comments d)))"

text \<open>\<^verbatim>\<open>SELECT votes FROM ${tableName} WHERE id = ?\<close>\<close>

definition select_item_votes :: "db \<Rightarrow> item_type \<Rightarrow> int \<Rightarrow> int option" where
  "select_item_votes d t i =
     (case t of
        Post \<Rightarrow> map_option posts_votes (db_get (\<lambda>p. posts_id p = i) (posts d))
      | Comment \<Rightarrow> map_option comments_votes (db_get (\<lambda>c. comments_id c = i) (comments d)))"

text \<open>\<^verbatim>\<open>UPDATE ${tableName} SET votes = votes + ? WHERE id = ?\<close>\<close>

definition update_item_votes :: "db \<Rightarrow> item_type \<Rightarrow> int \<Rightarrow> int \<Rightarrow> db" where
  "update_item_votes d t voteDelta i =
     (case t of
        Post \<Rightarrow>
          d\<lparr>posts := db_update (\<lambda>p. posts_id p = i)
                 (\<lambda>p. p\<lparr>posts_votes := posts_votes p + voteDelta\<rparr>) (posts d)\<rparr>
      | Comment \<Rightarrow>
          d\<lparr>comments := db_update (\<lambda>c. comments_id c = i)
                 (\<lambda>c. c\<lparr>comments_votes := comments_votes c + voteDelta\<rparr>) (comments d)\<rparr>)"

text \<open>\<^verbatim>\<open>SELECT ... FROM votes WHERE user_id = ? AND item_id = ? AND item_type = ?\<close>\<close>

definition vote_of :: "int \<Rightarrow> int \<Rightarrow> item_type \<Rightarrow> vote_row \<Rightarrow> bool" where
  "vote_of uid i t v = (votes_user_id v = uid \<and> votes_item_id v = i \<and> votes_item_type v = t)"

definition select_vote :: "db \<Rightarrow> int \<Rightarrow> int \<Rightarrow> item_type \<Rightarrow> vote_row option" where
  "select_vote d uid i t = db_get (vote_of uid i t) (votes d)"

text \<open>\<^verbatim>\<open>INSERT INTO votes (user_id, item_id, item_type, vote_type) VALUES (?, ?, ?, ?)\<close>\<close>

definition insert_vote :: "db \<Rightarrow> int \<Rightarrow> int \<Rightarrow> item_type \<Rightarrow> vote_type \<Rightarrow> db" where
  "insert_vote d uid i t v =
     (let new_id = next_rowid (votes_seq d) (map votes_id (votes d))
      in d\<lparr>votes := votes d @
               [\<lparr>votes_id = new_id, votes_user_id = uid, votes_item_id = i,
                 votes_item_type = t, votes_vote_type = v\<rparr>],
            votes_seq := new_id\<rparr>)"

text \<open>
  Lines 32 to 61 of the handler: the lookup of the caller's vote and the three branches.
  The result is the store after the statement on \<^verbatim>\<open>votes\<close>, \<^verbatim>\<open>voteDelta\<close> and
  \<^verbatim>\<open>action\<close>.
\<close>

definition apply_vote :: "db \<Rightarrow> int \<Rightarrow> int \<Rightarrow> item_type \<Rightarrow> vote_type \<Rightarrow> db \<times> int \<times> string" where
  "apply_vote d uid i t v =
     (case select_vote d uid i t of
        Some existingVote \<Rightarrow>
          if votes_vote_type existingVote = v then
            (d\<lparr>votes := db_delete (\<lambda>r. votes_id r = votes_id existingVote) (votes d)\<rparr>,
             if v = Up then - 1 else 1,
             ''removed'')
          else
            (d\<lparr>votes := db_update (\<lambda>r. votes_id r = votes_id existingVote)
                   (\<lambda>r. r\<lparr>votes_vote_type := v\<rparr>) (votes d)\<rparr>,
             if v = Up then 2 else - 2,
             ''updated'')
      | None \<Rightarrow>
          (insert_vote d uid i t v, if v = Up then 1 else - 1, ''created''))"

text \<open>
  The handler. Each \<^verbatim>\<open>return res.status(...)\<close> is a branch that leaves the store as it
  is. Reading \<^verbatim>\<open>updatedItem.votes\<close> of a row that is not there throws, which the
  \<^verbatim>\<open>catch\<close> turns into status 500; the statements already run are not undone.
\<close>

definition castOrUpdateVote :: "db \<Rightarrow> principal \<Rightarrow> vote_body \<Rightarrow> response \<times> db" where
  "castOrUpdateVote d user b =
     (if falsy_num (itemId b) \<or> falsy_str (itemType b) \<or> falsy_str (voteType b) then
        (json_error 400 ''itemId, itemType, and voteType are required'', d)
      else
        case (itemId b, itemType b, voteType b) of
          (Some i, Some itemType_text, Some voteType_text) \<Rightarrow>
            (case parse_item_type itemType_text of
               None \<Rightarrow> (json_error 400 ''itemType must be \"post\" or \"comment\"'', d)
             | Some t \<Rightarrow>
                (case parse_vote_type voteType_text of
                   None \<Rightarrow> (json_error 400 ''voteType must be \"up\" or \"down\"'', d)
                 | Some v \<Rightarrow>
                    (case select_item_id d t i of
                       None \<Rightarrow> (json_error 404 (item_type_text t @ '' not found''), d)
                     | Some item \<Rightarrow>
                        (case apply_vote d (p_id user) i t v of
                           (d1, voteDelta, action) \<Rightarrow>
                             let d2 = update_item_votes d1 t voteDelta i;
                                 updatedItem = select_item_votes d2 t i;
                                 currentVote = select_vote d2 (p_id user) i t
                             in case updatedItem of
                                  None \<Rightarrow> (json_error 500 ''Internal server error'', d2)
                                | Some n \<Rightarrow>
                                   (json_ok
                                      [(''message'', JStr (''Vote '' @ action @ '' successfully'')),
                                       (''votes'', JNum n),
                                       (''userVote'',
                                          case currentVote of
                                            Some cv \<Rightarrow> JStr (vote_type_text (votes_vote_type cv))
                                          | None \<Rightarrow> JNull)],
                                    d2)))))
        | _ \<Rightarrow> (json_error 400 ''itemId, itemType, and voteType are required'', d))"

text \<open>A sequence of calls, each on the store the one before it left.\<close>

fun castVotes :: "db \<Rightarrow> (principal \<times> vote_body) list \<Rightarrow> response list \<times> db" where
  "castVotes d [] = ([], d)"
| "castVotes d ((user, b) # calls) =
     (case castOrUpdateVote d user b of
        (r, d1) \<Rightarrow> (case castVotes d1 calls of (rs, d2) \<Rightarrow> (r # rs, d2)))"

subsection \<open>The counter and the ledger\<close>

text \<open>
  The signed sum of the vote rows of an item, +1 for an up vote and -1 for a down vote,
  and the statement that the item's \<^verbatim>\<open>votes\<close> column holds it.
\<close>

definition vote_value :: "vote_type \<Rightarrow> int" where
  "vote_value v = (case v of Up \<Rightarrow> 1 | Down \<Rightarrow> - 1)"

definition votes_for :: "db \<Rightarrow> item_type \<Rightarrow> int \<Rightarrow> vote_row list" where
  "votes_for d t i = filter (\<lambda>v. votes_item_type v = t \<and> votes_item_id v = i) (votes d)"

definition signed_sum :: "db \<Rightarrow> item_type \<Rightarrow> int \<Rightarrow> int" where
  "signed_sum d t i = sum_list (map (\<lambda>v. vote_value (votes_vote_type v)) (votes_for d t i))"

definition votes_synced :: "db \<Rightarrow> item_type \<Rightarrow> int \<Rightarrow> bool" where
  "votes_synced d t i = (select_item_votes d t i = Some (signed_sum d t i))"

text \<open>
  The constraints of the \<^verbatim>\<open>votes\<close> table: \<^verbatim>\<open>id INTEGER PRIMARY KEY\<close> and
  \<^verbatim>\<open>UNIQUE(user_id, item_id, item_type)\<close>.
\<close>

definition votes_pk :: "db \<Rightarrow> bool" where
  "votes_pk d = distinct (map votes_id (votes d))"

definition votes_unique :: "db \<Rightarrow> bool" where
  "votes_unique d =
     distinct (map (\<lambda>v. (votes_user_id v, votes_item_id v, votes_item_type v)) (votes d))"

section \<open>Reports: \<^verbatim>\<open>POST /api/reports\<close>\<close>

record report_body =
  report_itemId :: "int option"
  report_itemType :: "string option"
  report_reason :: "string option"

text \<open>
  \<^verbatim>\<open>String.prototype.trim\<close> on code units below 256: tab, line feed, vertical tab, form
  feed, carriage return, space and no-break space are removed from both ends.
\<close>

definition is_space :: "char \<Rightarrow> bool" where
  "is_space c = ((of_char c :: nat) \<in> {9, 10, 11, 12, 13, 32, 160})"

definition trim :: "string \<Rightarrow> string" where
  "trim s = rev (dropWhile is_space (rev (dropWhile is_space s)))"

text \<open>
  \<^verbatim>\<open>SELECT id FROM reports WHERE reporter_id = ? AND reported_item_id = ? AND
  reported_item_type = ?\<close>: the status of the row is not part of the condition.
\<close>

definition report_of :: "int \<Rightarrow> int \<Rightarrow> item_type \<Rightarrow> report_row \<Rightarrow> bool" where
  "report_of uid i t r =
     (reports_reporter_id r = uid \<and> reports_reported_item_id r = i \<and>
      reports_reported_item_type r = t)"

text \<open>
  \<^verbatim>\<open>INSERT INTO reports (reporter_id, reported_item_id, reported_item_type, reason)\<close>;
  \<^verbatim>\<open>status\<close> takes its default \<^verbatim>\<open>'pending'\<close>.
\<close>

definition insert_report :: "db \<Rightarrow> int \<Rightarrow> int \<Rightarrow> item_type \<Rightarrow> string option \<Rightarrow> db" where
  "insert_report d uid i t reason =
     (let new_id = next_rowid (reports_seq d) (map reports_id (reports d))
      in d\<lparr>reports := reports d @
               [\<lparr>reports_id = new_id, reports_reporter_id = uid, reports_reported_item_id = i,
                 reports_reported_item_type = t, reports_reason = reason,
                 reports_status = Pending\<rparr>],
            reports_seq := new_id\<rparr>)"

definition submitReport :: "db \<Rightarrow> principal \<Rightarrow> report_body \<Rightarrow> response \<times> db" where
  "submitReport d user b =
     (if falsy_num (report_itemId b) \<or> falsy_str (report_itemType b) then
        (json_error 400 ''itemId and itemType are required'', d)
      else
        case (report_itemId b, report_itemType b) of
          (Some i, Some itemType_text) \<Rightarrow>
            (case parse_item_type itemType_text of
               None \<Rightarrow> (json_error 400 ''itemType must be \"post\" or \"comment\"'', d)
             | Some t \<Rightarrow>
                if (case report_reason b of
                      None \<Rightarrow> False
                    | Some reason \<Rightarrow> reason \<noteq> [] \<and> length reason > 500) then
                  (json_error 400 ''Reason too long (max 500 characters)'', d)
                else
                  (case select_item_id d t i of
                     None \<Rightarrow> (json_error 404 (item_type_text t @ '' not found''), d)
                   | Some item \<Rightarrow>
                      (case db_get (report_of (p_id user) i t) (reports d) of
                         Some existingReport \<Rightarrow>
                           (json_error 409 ''You have already reported this content'', d)
                       | None \<Rightarrow>
                           (\<lparr>res_status = 201,
                             res_body = [(''message'', JStr ''Report submitted successfully'')]\<rparr>,
                            insert_report d (p_id user) i t
                              (case report_reason b of
                                 None \<Rightarrow> None
                               | Some reason \<Rightarrow>
                                   if trim reason = [] then None else Some (trim reason))))))
        | _ \<Rightarrow> (json_error 400 ''itemId and itemType are required'', d))"

section \<open>Moderation\<close>

subsection \<open>\<^verbatim>\<open>middleware/moderation.js\<close>\<close>

text \<open>
  \<^verbatim>\<open>requireModerator\<close> answers with a response, or calls \<^verbatim>\<open>next()\<close> with \<^verbatim>\<open>req.user\<close>
  replaced by the row read from \<^verbatim>\<open>users\<close>. The row is read with its \<^verbatim>\<open>is_banned\<close>
  column; the only test is on \<^verbatim>\<open>role\<close>.
\<close>

definition requireModerator :: "db \<Rightarrow> principal option \<Rightarrow> response + user_row" where
  "requireModerator d req_user =
     (case req_user of
        None \<Rightarrow> Inl (json_error 401 ''Authentication required'')
      | Some p \<Rightarrow>
         (case db_get (\<lambda>u. users_id u = p_id p) (users d) of
            None \<Rightarrow> Inl (json_error 401 ''User not found'')
          | Some user \<Rightarrow>
             if users_role user \<noteq> Moderator \<and> users_role user \<noteq> Admin then
               Inl (json_error 403 ''Moderator access required'')
             else Inr user))"

text \<open>
  \<^verbatim>\<open>logModerationAction\<close>: one row appended to \<^verbatim>\<open>moderation_logs\<close>.
\<close>

definition logModerationAction ::
  "db \<Rightarrow> int \<Rightarrow> string \<Rightarrow> string \<Rightarrow> int option \<Rightarrow> string option \<Rightarrow> db" where
  "logModerationAction d moderatorId action targetType targetId details =
     (let new_id = next_rowid (moderation_logs_seq d) (map logs_id (moderation_logs d))
      in d\<lparr>moderation_logs := moderation_logs d @
               [\<lparr>logs_id = new_id, logs_moderator_id = moderatorId, logs_action = action,
                 logs_target_type = targetType, logs_target_id = targetId,
                 logs_details = details\<rparr>],
            moderation_logs_seq := new_id\<rparr>)"

subsection \<open>\<^verbatim>\<open>routes/moderation.js\<close>\<close>

text \<open>
  \<^verbatim>\<open>router.use(authenticateToken); router.use(requireModerator)\<close>: a handler of this
  router runs only after the gate, on the store as it is, with the row the gate read.
\<close>

definition moderation_route ::
  "(db \<Rightarrow> user_row \<Rightarrow> 'a \<Rightarrow> response \<times> db) \<Rightarrow> db \<Rightarrow> principal option \<Rightarrow> 'a \<Rightarrow> response \<times> db" where
  "moderation_route handler d req_user x =
     (case requireModerator d req_user of
        Inl r \<Rightarrow> (r, d)
      | Inr user \<Rightarrow> handler d user x)"

text \<open>A number in a template literal, and \<^verbatim>\<open>Array.prototype.join\<close>.\<close>

fun show_nat :: "nat \<Rightarrow> string" where
  "show_nat n =
     (if n < 10 then [char_of (48 + n)] else show_nat (n div 10) @ [char_of (48 + n mod 10)])"

declare show_nat.simps [simp del]

definition show_int :: "int \<Rightarrow> string" where
  "show_int i = (if i < 0 then CHR ''-'' # show_nat (nat (- i)) else show_nat (nat i))"

fun join :: "string \<Rightarrow> string list \<Rightarrow> string" where
  "join sep [] = []"
| "join sep [x] = x"
| "join sep (x # y # ys) = x @ sep @ join sep (y # ys)"

text \<open>
  \<^verbatim>\<open>POST /posts/bulk-delete\<close>. \<open>postIds\<close> is \<open>None\<close> when the body's \<^verbatim>\<open>postIds\<close> is not
  an array. The \<^verbatim>\<open>SELECT\<close> and the \<^verbatim>\<open>DELETE\<close> share the condition
  \<^verbatim>\<open>id IN (?, ..., ?)\<close>.
\<close>

definition bulkDeletePosts :: "db \<Rightarrow> user_row \<Rightarrow> int list option \<Rightarrow> response \<times> db" where
  "bulkDeletePosts d moderator postIds =
     (case postIds of
        None \<Rightarrow> (json_error 400 ''postIds array is required'', d)
      | Some ids \<Rightarrow>
         if length ids = 0 then (json_error 400 ''postIds array is required'', d)
         else
           let found = db_all (\<lambda>p. posts_id p \<in> set ids) (posts d)
           in if length found = 0 then (json_error 404 ''No posts found'', d)
              else
                let d1 = d\<lparr>posts := db_delete (\<lambda>p. posts_id p \<in> set ids) (posts d)\<rparr>;
                    d2 = logModerationAction d1 (users_id moderator) ''bulk_delete_posts''
                           ''post'' None
                           (Some (''Bulk deleted '' @ show_nat (length found) @ '' posts: '' @
                                  join '', '' (map posts_title found)))
                in (json_ok
                      [(''message'',
                          JStr (show_nat (length found) @ '' posts deleted successfully'')),
                       (''deletedCount'', JNum (int (length found)))],
                    d2))"

text \<open>\<^verbatim>\<open>POST /users/:username/ban\<close> and \<^verbatim>\<open>POST /users/:username/unban\<close>.\<close>

definition banUser :: "db \<Rightarrow> user_row \<Rightarrow> string \<Rightarrow> response \<times> db" where
  "banUser d moderator username =
     (case db_get (\<lambda>u. users_username u = username) (users d) of
        None \<Rightarrow> (json_error 404 ''User not found'', d)
      | Some user \<Rightarrow>
         if truthy (users_is_banned user) then (json_error 400 ''User is already banned'', d)
         else
           let d1 = d\<lparr>users := db_update (\<lambda>u. users_id u = users_id user)
                            (\<lambda>u. u\<lparr>users_is_banned := 1\<rparr>) (users d)\<rparr>;
               d2 = logModerationAction d1 (users_id moderator) ''ban_user'' ''user''
                      (Some (users_id user)) (Some (''Banned user: '' @ username))
           in (json_ok [(''message'', JStr (''User '' @ username @ '' has been banned''))], d2))"

definition unbanUser :: "db \<Rightarrow> user_row \<Rightarrow> string \<Rightarrow> response \<times> db" where
  "unbanUser d moderator username =
     (case db_get (\<lambda>u. users_username u = username) (users d) of
        None \<Rightarrow> (json_error 404 ''User not found'', d)
      | Some user \<Rightarrow>
         if \<not> truthy (users_is_banned user) then (json_error 400 ''User is not banned'', d)
         else
           let d1 = d\<lparr>users := db_update (\<lambda>u. users_id u = users_id user)
                            (\<lambda>u. u\<lparr>users_is_banned := 0\<rparr>) (users d)\<rparr>;
               d2 = logModerationAction d1 (users_id moderator) ''unban_user'' ''user''
                      (Some (users_id user)) (Some (''Unbanned user: '' @ username))
           in (json_ok [(''message'', JStr (''User '' @ username @ '' has been unbanned''))], d2))"

text \<open>
  \<^verbatim>\<open>POST /reports/:id/dismiss\<close>. \<open>reportId\<close> is the value of \<^verbatim>\<open>parseInt(req.params.id)\<close>,
  \<open>None\<close> when it is \<^verbatim>\<open>NaN\<close>, which is the id of no row.
\<close>

definition dismissReport :: "db \<Rightarrow> user_row \<Rightarrow> int option \<Rightarrow> response \<times> db" where
  "dismissReport d moderator reportId =
     (case reportId of
        None \<Rightarrow> (json_error 404 ''Report not found'', d)
      | Some n \<Rightarrow>
         (case db_get (\<lambda>r. reports_id r = n) (reports d) of
            None \<Rightarrow> (json_error 404 ''Report not found'', d)
          | Some report \<Rightarrow>
             let d1 = d\<lparr>reports := db_update (\<lambda>r. reports_id r = n)
                              (\<lambda>r. r\<lparr>reports_status := Dismissed\<rparr>) (reports d)\<rparr>;
                 d2 = logModerationAction d1 (users_id moderator) ''dismiss_report'' ''report''
                        (Some n)
                        (Some (''Dismissed report for '' @
                               item_type_text (reports_reported_item_type report) @ '' '' @
                               show_int (reports_reported_item_id report)))
             in (json_ok [(''message'', JStr ''Report dismissed successfully'')], d2)))"

section \<open>A store and requests to run the handlers on\<close>

definition alice :: principal where
  "alice = \<lparr>p_id = 1, p_username = ''alice''\<rparr>"

definition bob :: principal where
  "bob = \<lparr>p_id = 2, p_username = ''bob''\<rparr>"

definition carol :: principal where
  "carol = \<lparr>p_id = 3, p_username = ''carol''\<rparr>"

text \<open>
  Carol is a moderator whose ban flag is set; Dave is a banned user; Alice's report of
  comment 5 has been dismissed.
\<close>

definition carol_row :: user_row where
  "carol_row = \<lparr>users_id = 3, users_username = ''carol'', users_role = Moderator,
                 users_is_banned = 1\<rparr>"

definition db0 :: db where
  "db0 =
     \<lparr>users =
        [\<lparr>users_id = 1, users_username = ''alice'', users_role = User, users_is_banned = 0\<rparr>,
         \<lparr>users_id = 2, users_username = ''bob'', users_role = User, users_is_banned = 0\<rparr>,
         carol_row,
         \<lparr>users_id = 4, users_username = ''dave'', users_role = User, users_is_banned = 1\<rparr>],
      posts =
        [\<lparr>posts_id = 1, posts_title = ''Hello'', posts_author_id = 1, posts_votes = 0\<rparr>,
         \<lparr>posts_id = 2, posts_title = ''News'', posts_author_id = 2, posts_votes = 0\<rparr>],
      comments =
        [\<lparr>comments_id = 5, comments_post_id = 1, comments_author_id = 2,
          comments_body = ''First'', comments_votes = 0\<rparr>],
      votes = [],
      reports =
        [\<lparr>reports_id = 1, reports_reporter_id = 1, reports_reported_item_id = 5,
          reports_reported_item_type = Comment, reports_reason = Some ''spam'',
          reports_status = Dismissed\<rparr>],
      moderation_logs = [],
      votes_seq = 0,
      reports_seq = 1,
      moderation_logs_seq = 0\<rparr>"

definition vote_request :: "int \<Rightarrow> string \<Rightarrow> string \<Rightarrow> vote_body" where
  "vote_request i t v = \<lparr>itemId = Some i, itemType = Some t, voteType = Some v\<rparr>"

definition report_request :: "int \<Rightarrow> string \<Rightarrow> report_body" where
  "report_request i t =
     \<lparr>report_itemId = Some i, report_itemType = Some t, report_reason = Some ''spam''\<rparr>"

text \<open>
  Alice votes post 1 up, Bob votes it up, Alice switches to down, Alice casts down again.
\<close>

definition scenario :: "(principal \<times> vote_body) list" where
  "scenario =
     [(alice, vote_request 1 ''post'' ''up''),
      (bob, vote_request 1 ''post'' ''up''),
      (alice, vote_request 1 ''post'' ''down''),
      (alice, vote_request 1 ''post'' ''down'')]"

text \<open>The store after Alice has voted post 1 up.\<close>

definition db1 :: db where
  "db1 = snd (castOrUpdateVote db0 alice (vote_request 1 ''post'' ''up''))"

section \<open>Facts about the statements\<close>

lemma fold_max_ge: "(s::int) \<le> fold max ids s"
  by (induction ids arbitrary: s) (auto intro: order_trans [OF max.cobounded2])

lemma fold_max_mem: "x \<in> set ids \<Longrightarrow> (x::int) \<le> fold max ids s"
proof (induction ids arbitrary: s)
  case Nil then show ?case by simp
next
  case (Cons a ids)
  show ?case
  proof (cases "x = a")
    case True
    have "a \<le> max a s" by simp
    also have "\<dots> \<le> fold max ids (max a s)" by (rule fold_max_ge)
    finally show ?thesis using True by simp
  next
    case False
    with Cons show ?thesis by simp
  qed
qed

lemma next_rowid_fresh: "x \<in> set ids \<Longrightarrow> x < next_rowid seq ids"
  using fold_max_mem [of x ids seq] by (simp add: next_rowid_def)

lemma find_db_update:
  assumes "\<And>r. Q (f r) = Q r"
  shows "find Q (db_update P f rows) = map_option (\<lambda>r. if P r then f r else r) (find Q rows)"
  using assms by (induction rows) (auto simp: db_update_def)

lemma filter_key_id:
  "k e \<notin> k ` set rows \<Longrightarrow> filter (\<lambda>r. k r \<noteq> k e) rows = rows"
  by (induction rows) auto

lemma map_key_id:
  "k e \<notin> k ` set rows \<Longrightarrow> map (\<lambda>r. if k r = k e then f r else r) rows = rows"
  by (induction rows) auto

lemma sum_delete_row:
  fixes g :: "'r \<Rightarrow> int"
  assumes "distinct (map k rows)" "e \<in> set rows"
  shows "sum_list (map g (filter Q (db_delete (\<lambda>r. k r = k e) rows)))
       = sum_list (map g (filter Q rows)) - (if Q e then g e else 0)"
  using assms
proof (induction rows)
  case Nil then show ?case by simp
next
  case (Cons a rows)
  show ?case
  proof (cases "a = e")
    case True
    with Cons.prems have "k e \<notin> k ` set rows" by auto
    then show ?thesis using True by (simp add: db_delete_def filter_key_id)
  next
    case False
    with Cons.prems have "e \<in> set rows" "k a \<noteq> k e" by auto
    with Cons show ?thesis by (simp add: db_delete_def)
  qed
qed

lemma sum_update_row:
  fixes g :: "'r \<Rightarrow> int"
  assumes "distinct (map k rows)" "e \<in> set rows"
  shows "sum_list (map g (filter Q (db_update (\<lambda>r. k r = k e) f rows)))
       = sum_list (map g (filter Q rows)) - (if Q e then g e else 0) + (if Q (f e) then g (f e) else 0)"
  using assms
proof (induction rows)
  case Nil then show ?case by simp
next
  case (Cons a rows)
  show ?case
  proof (cases "a = e")
    case True
    with Cons.prems have "k e \<notin> k ` set rows" by auto
    then show ?thesis using True by (simp add: db_update_def map_key_id)
  next
    case False
    with Cons.prems have "e \<in> set rows" "k a \<noteq> k e" by auto
    with Cons show ?thesis by (simp add: db_update_def)
  qed
qed

lemma db_get_SomeD: "db_get P rows = Some r \<Longrightarrow> r \<in> set rows \<and> P r"
  by (auto simp: db_get_def find_Some_iff)

lemma find_db_update_same:
  assumes "\<And>r. P (f r) = P r"
  shows "find P (db_update P f rows) = map_option f (find P rows)"
  using assms by (induction rows) (auto simp: db_update_def)

lemma find_db_update_other:
  assumes "j \<noteq> i" "\<And>r. k (f r) = k r"
  shows "find (\<lambda>r. k r = j) (db_update (\<lambda>r. k r = i) f rows) = find (\<lambda>r. k r = j) rows"
  using assms by (induction rows) (auto simp: db_update_def)

lemma map_key_db_update:
  assumes "\<And>r. k (f r) = k r"
  shows "map k (db_update P f rows) = map k rows"
  using assms by (induction rows) (auto simp: db_update_def)

lemma select_item_votes_update_same:
  "select_item_votes (update_item_votes d t delta i) t i =
     map_option (\<lambda>n. n + delta) (select_item_votes d t i)"
  by (cases t)
     (simp_all add: select_item_votes_def update_item_votes_def db_get_def find_db_update_same
           option.map_comp o_def)

lemma select_item_votes_update_other:
  "t' \<noteq> t \<or> j \<noteq> i \<Longrightarrow>
   select_item_votes (update_item_votes d t delta i) t' j = select_item_votes d t' j"
  by (cases t; cases t')
     (auto simp: select_item_votes_def update_item_votes_def db_get_def find_db_update_other)

lemma votes_update_item_votes [simp]: "votes (update_item_votes d t delta i) = votes d"
  by (cases t) (simp_all add: update_item_votes_def)

lemma signed_sum_update_item_votes [simp]:
  "signed_sum (update_item_votes d t delta i) t' j = signed_sum d t' j"
  by (simp add: signed_sum_def votes_for_def)

lemma votes_pk_update_item_votes [simp]:
  "votes_pk (update_item_votes d t delta i) = votes_pk d"
  by (simp add: votes_pk_def)

lemma apply_vote_items:
  "apply_vote d uid i t v = (d1, delta, a) \<Longrightarrow> posts d1 = posts d \<and> comments d1 = comments d"
  by (auto simp: apply_vote_def insert_vote_def Let_def split: option.splits if_splits)

lemma select_item_votes_cong:
  "posts d1 = posts d \<Longrightarrow> comments d1 = comments d \<Longrightarrow> select_item_votes d1 t i = select_item_votes d t i"
  by (cases t) (simp_all add: select_item_votes_def)

lemma apply_vote_pk:
  assumes "votes_pk d" "apply_vote d uid i t v = (d1, delta, a)"
  shows "votes_pk d1"
proof (cases "select_vote d uid i t")
  case None
  have "next_rowid (votes_seq d) (map votes_id (votes d)) \<notin> set (map votes_id (votes d))"
    using next_rowid_fresh [of _ "map votes_id (votes d)" "votes_seq d"] by blast
  with assms None show ?thesis
    by (auto simp: apply_vote_def insert_vote_def Let_def votes_pk_def)
next
  case (Some ev)
  with assms show ?thesis
    by (auto simp: apply_vote_def votes_pk_def db_delete_def distinct_map_filter map_key_db_update
             split: if_splits)
qed

lemma apply_vote_sum:
  assumes pk: "votes_pk d" and av: "apply_vote d uid i t v = (d1, delta, a)"
  shows "signed_sum d1 t' j = signed_sum d t' j + (if t' = t \<and> j = i then delta else 0)"
proof (cases "select_vote d uid i t")
  case None
  with av show ?thesis
    by (auto simp: apply_vote_def insert_vote_def Let_def signed_sum_def votes_for_def vote_value_def
             split: vote_type.splits)
next
  case (Some ev)
  then have ev: "ev \<in> set (votes d)" "vote_of uid i t ev"
    using db_get_SomeD [of "vote_of uid i t" "votes d" ev] by (simp_all add: select_vote_def)
  from pk have dist: "distinct (map votes_id (votes d))" by (simp add: votes_pk_def)
  let ?Q = "\<lambda>v. votes_item_type v = t' \<and> votes_item_id v = j"
  let ?g = "\<lambda>v. vote_value (votes_vote_type v)"
  show ?thesis
  proof (cases "votes_vote_type ev = v")
    case True
    with av Some have d1: "votes d1 = db_delete (\<lambda>r. votes_id r = votes_id ev) (votes d)"
      and delta: "delta = (if v = Up then - 1 else 1)"
      by (auto simp: apply_vote_def)
    show ?thesis
      unfolding signed_sum_def votes_for_def d1
      using sum_delete_row [OF dist ev(1), of ?g ?Q] ev(2) True delta
      by (cases v) (auto simp: vote_of_def vote_value_def)
  next
    case False
    with av Some have d1: "votes d1 = db_update (\<lambda>r. votes_id r = votes_id ev) (\<lambda>r. r\<lparr>votes_vote_type := v\<rparr>) (votes d)"
      and delta: "delta = (if v = Up then 2 else - 2)"
      by (auto simp: apply_vote_def)
    show ?thesis
      unfolding signed_sum_def votes_for_def d1
      using sum_update_row [OF dist ev(1), of ?g ?Q "\<lambda>r. r\<lparr>votes_vote_type := v\<rparr>"] ev(2) False delta
      by (cases v; cases "votes_vote_type ev") (auto simp: vote_of_def vote_value_def)
  qed
qed

section \<open>Facts about the vote handler\<close>

lemma castOrUpdateVote_rejected:
  assumes "falsy_num (itemId b) \<or> falsy_str (itemType b) \<or> falsy_str (voteType b)
         \<or> (\<exists>s. itemType b = Some s \<and> parse_item_type s = None)
         \<or> (\<exists>w. voteType b = Some w \<and> parse_vote_type w = None)"
  shows "snd (castOrUpdateVote d user b) = d \<and> res_status (fst (castOrUpdateVote d user b)) = 400"
proof (cases "falsy_num (itemId b) \<or> falsy_str (itemType b) \<or> falsy_str (voteType b)")
  case True
  then show ?thesis by (simp add: castOrUpdateVote_def json_error_def)
next
  case False
  then obtain i s w where b: "itemId b = Some i" "itemType b = Some s" "voteType b = Some w"
    by (auto simp: falsy_num_def falsy_str_def split: option.splits)
  with assms False have "parse_item_type s = None \<or> parse_vote_type w = None" by auto
  then show ?thesis
  proof
    assume "parse_item_type s = None"
    with False b show ?thesis by (simp add: castOrUpdateVote_def json_error_def)
  next
    assume w: "parse_vote_type w = None"
    show ?thesis
      by (cases "parse_item_type s") (use False b w in \<open>simp_all add: castOrUpdateVote_def json_error_def\<close>)
  qed
qed

lemma castOrUpdateVote_not_found:
  assumes "itemId b = Some i" "i \<noteq> 0" "itemType b = Some s" "parse_item_type s = Some t"
    "voteType b = Some w" "parse_vote_type w = Some v" "select_item_id d t i = None"
  shows "castOrUpdateVote d user b = (json_error 404 (item_type_text t @ '' not found''), d)"
proof -
  have "s \<noteq> []" "w \<noteq> []" using assms by (auto simp: parse_item_type_def parse_vote_type_def)
  with assms show ?thesis
    by (simp add: castOrUpdateVote_def falsy_num_def falsy_str_def)
qed

lemma castOrUpdateVote_accepted:
  assumes "itemId b = Some i" "i \<noteq> 0" "itemType b = Some s" "parse_item_type s = Some t"
    "voteType b = Some w" "parse_vote_type w = Some v" "select_item_id d t i = Some x"
    "apply_vote d (p_id user) i t v = (d1, voteDelta, action)"
  shows "castOrUpdateVote d user b =
    (case select_item_votes (update_item_votes d1 t voteDelta i) t i of
       None \<Rightarrow> json_error 500 ''Internal server error''
     | Some n \<Rightarrow>
        json_ok
          [(''message'', JStr (''Vote '' @ action @ '' successfully'')),
           (''votes'', JNum n),
           (''userVote'',
              case select_vote (update_item_votes d1 t voteDelta i) (p_id user) i t of
                Some cv \<Rightarrow> JStr (vote_type_text (votes_vote_type cv))
              | None \<Rightarrow> JNull)],
     update_item_votes d1 t voteDelta i)"
proof -
  have "s \<noteq> []" "w \<noteq> []" using assms by (auto simp: parse_item_type_def parse_vote_type_def)
  with assms show ?thesis
    by (cases "select_item_votes (update_item_votes d1 t voteDelta i) t i")
       (simp_all add: castOrUpdateVote_def falsy_num_def falsy_str_def Let_def)
qed

lemma castOrUpdateVote_store:
  "snd (castOrUpdateVote d user b) = d \<or>
   (\<exists>i t v d1 delta a. apply_vote d (p_id user) i t v = (d1, delta, a) \<and>
      snd (castOrUpdateVote d user b) = update_item_votes d1 t delta i)"
proof (cases "falsy_num (itemId b) \<or> falsy_str (itemType b) \<or> falsy_str (voteType b)")
  case True
  then show ?thesis using castOrUpdateVote_rejected [of b d user] by blast
next
  case False
  then obtain i s w where b: "itemId b = Some i" "i \<noteq> 0" "itemType b = Some s" "voteType b = Some w"
    by (auto simp: falsy_num_def falsy_str_def split: option.splits)
  show ?thesis
  proof (cases "parse_item_type s")
    case None
    then show ?thesis using castOrUpdateVote_rejected [of b d user] b by simp
  next
    case t: (Some t)
    show ?thesis
    proof (cases "parse_vote_type w")
      case None
      then show ?thesis using castOrUpdateVote_rejected [of b d user] b by simp
    next
      case v: (Some v)
      show ?thesis
      proof (cases "select_item_id d t i")
        case None
        then show ?thesis using castOrUpdateVote_not_found [OF b(1,2,3) t b(4) v] by simp
      next
        case (Some x)
        obtain d1 delta a where av: "apply_vote d (p_id user) i t v = (d1, delta, a)"
          by (cases "apply_vote d (p_id user) i t v")
        have "snd (castOrUpdateVote d user b) = update_item_votes d1 t delta i"
          using castOrUpdateVote_accepted [OF b(1,2,3) t b(4) v Some av] by simp
        with av show ?thesis by blast
      qed
    qed
  qed
qed

lemma vote_step_synced:
  assumes pk: "votes_pk d" and sync: "votes_synced d t' j"
    and av: "apply_vote d uid i t v = (d1, delta, a)"
  shows "votes_synced (update_item_votes d1 t delta i) t' j"
proof -
  have items: "select_item_votes d1 t' j = select_item_votes d t' j"
    using apply_vote_items [OF av] by (intro select_item_votes_cong) simp_all
  have old: "select_item_votes d1 t' j = Some (signed_sum d t' j)"
    using sync items by (simp only: votes_synced_def)
  show ?thesis
  proof (cases "t' = t \<and> j = i")
    case True
    then have eq: "t' = t" "j = i" by simp_all
    have "select_item_votes (update_item_votes d1 t delta i) t i = Some (signed_sum d t i + delta)"
      using old unfolding eq by (simp add: select_item_votes_update_same)
    moreover have "signed_sum (update_item_votes d1 t delta i) t i = signed_sum d t i + delta"
      using apply_vote_sum [OF pk av, of t i] by simp
    ultimately show ?thesis unfolding eq votes_synced_def by simp
  next
    case False
    then have ne: "t' \<noteq> t \<or> j \<noteq> i" by blast
    have "select_item_votes (update_item_votes d1 t delta i) t' j = Some (signed_sum d t' j)"
      using old select_item_votes_update_other [OF ne] by simp
    moreover have "signed_sum (update_item_votes d1 t delta i) t' j = signed_sum d t' j"
      using apply_vote_sum [OF pk av, of t' j] False by auto
    ultimately show ?thesis unfolding votes_synced_def by simp
  qed
qed

lemma castOrUpdateVote_pk:
  "votes_pk d \<Longrightarrow> votes_pk (snd (castOrUpdateVote d user b))"
  using castOrUpdateVote_store [of d user b] by (auto dest: apply_vote_pk)

lemma castOrUpdateVote_synced:
  "votes_pk d \<Longrightarrow> votes_synced d t j \<Longrightarrow> votes_synced (snd (castOrUpdateVote d user b)) t j"
  using castOrUpdateVote_store [of d user b] by (auto dest: vote_step_synced)

lemma castVotes_invariant:
  "votes_pk d \<Longrightarrow> votes_synced d t j \<Longrightarrow>
   votes_pk (snd (castVotes d calls)) \<and> votes_synced (snd (castVotes d calls)) t j"
proof (induction calls arbitrary: d)
  case Nil
  then show ?case by simp
next
  case (Cons c calls)
  obtain user b where c: "c = (user, b)" by (cases c)
  obtain r d1 where step: "castOrUpdateVote d user b = (r, d1)" by (cases "castOrUpdateVote d user b")
  have "votes_pk d1" "votes_synced d1 t j"
    using Cons.prems castOrUpdateVote_pk [of d user b] castOrUpdateVote_synced [of d t j user b] step
    by simp_all
  from Cons.IH [OF this] show ?case
    by (cases "castVotes d1 calls") (simp add: c step)
qed

lemma select_item_votes_exists:
  "select_item_votes d t i = Some n \<Longrightarrow> \<exists>x. select_item_id d t i = Some x"
  by (cases t) (auto simp: select_item_votes_def select_item_id_def)

lemma parse_item_type_text [simp]: "parse_item_type (item_type_text t) = Some t"
  by (cases t) (simp_all add: parse_item_type_def)

lemma parse_vote_type_text [simp]: "parse_vote_type (vote_type_text v) = Some v"
  by (cases v) (simp_all add: parse_vote_type_def)

lemma parse_item_type_Some: "parse_item_type s = Some t \<Longrightarrow> s = item_type_text t"
  by (cases t) (auto simp: parse_item_type_def split: if_splits)

lemma parse_vote_type_Some: "parse_vote_type s = Some v \<Longrightarrow> s = vote_type_text v"
  by (cases v) (auto simp: parse_vote_type_def split: if_splits)

lemma select_vote_update_item_votes [simp]:
  "select_vote (update_item_votes d t delta i) uid j t' = select_vote d uid j t'"
  by (simp add: select_vote_def)

lemma castOrUpdateVote_ok:
  assumes "itemId b = Some i" "i \<noteq> 0" "itemType b = Some (item_type_text t)"
    "voteType b = Some (vote_type_text v)" "select_item_votes d t i = Some n"
    "apply_vote d (p_id user) i t v = (d1, voteDelta, action)"
  shows "castOrUpdateVote d user b =
    (json_ok
       [(''message'', JStr (''Vote '' @ action @ '' successfully'')),
        (''votes'', JNum (n + voteDelta)),
        (''userVote'',
           case select_vote d1 (p_id user) i t of
             Some cv \<Rightarrow> JStr (vote_type_text (votes_vote_type cv))
           | None \<Rightarrow> JNull)],
     update_item_votes d1 t voteDelta i)"
proof -
  obtain x where x: "select_item_id d t i = Some x"
    using select_item_votes_exists [OF assms(5)] by blast
  have "select_item_votes d1 t i = Some n"
    using apply_vote_items [OF assms(6)] assms(5) select_item_votes_cong [of d1 d t i] by simp
  then have n: "select_item_votes (update_item_votes d1 t voteDelta i) t i = Some (n + voteDelta)"
    by (simp add: select_item_votes_update_same)
  show ?thesis
    using castOrUpdateVote_accepted [OF assms(1,2,3) parse_item_type_text assms(4)
        parse_vote_type_text x assms(6)]
    by (simp add: n)
qed

lemma select_item_id_exists:
  "select_item_id d t i = Some x \<Longrightarrow> \<exists>n. select_item_votes d t i = Some n"
  by (cases t) (auto simp: select_item_votes_def select_item_id_def)

lemma castOrUpdateVote_200D:
  assumes ok: "res_status (fst (castOrUpdateVote d user b)) = 200"
  obtains i t v n where "itemId b = Some i" "i \<noteq> 0" "itemType b = Some (item_type_text t)"
    "voteType b = Some (vote_type_text v)" "select_item_votes d t i = Some n"
proof -
  have nf: "\<not> (falsy_num (itemId b) \<or> falsy_str (itemType b) \<or> falsy_str (voteType b))"
    using castOrUpdateVote_rejected [of b d user] ok by auto
  then obtain i s w where b: "itemId b = Some i" "i \<noteq> 0" "itemType b = Some s" "voteType b = Some w"
    by (auto simp: falsy_num_def falsy_str_def split: option.splits)
  have "parse_item_type s \<noteq> None"
  proof
    assume "parse_item_type s = None"
    with b have "\<exists>s. itemType b = Some s \<and> parse_item_type s = None" by blast
    with castOrUpdateVote_rejected [of b d user] ok show False by simp
  qed
  then obtain t where t: "parse_item_type s = Some t" by blast
  have "parse_vote_type w \<noteq> None"
  proof
    assume "parse_vote_type w = None"
    with b have "\<exists>w. voteType b = Some w \<and> parse_vote_type w = None" by blast
    with castOrUpdateVote_rejected [of b d user] ok show False by simp
  qed
  then obtain v where v: "parse_vote_type w = Some v" by blast
  have "select_item_id d t i \<noteq> None"
  proof
    assume "select_item_id d t i = None"
    from castOrUpdateVote_not_found [OF b(1,2,3) t b(4) v this, of user] ok
    show False by (simp add: json_error_def)
  qed
  then obtain n where n: "select_item_votes d t i = Some n"
    using select_item_id_exists by blast
  have tv: "itemType b = Some (item_type_text t)" "voteType b = Some (vote_type_text v)"
    using b parse_item_type_Some [OF t] parse_vote_type_Some [OF v] by simp_all
  show thesis by (rule that [OF b(1,2) tv n])
qed

lemma apply_vote_action:
  "apply_vote d uid i t v = (d1, delta, a) \<Longrightarrow> a \<in> {''created'', ''removed'', ''updated''}"
  by (auto simp: apply_vote_def split: option.splits if_splits)

lemma select_item_votes_other_fields [simp]:
  "select_item_votes (d\<lparr>votes := vs\<rparr>) t i = select_item_votes d t i"
  "select_item_votes (d\<lparr>votes_seq := q\<rparr>) t i = select_item_votes d t i"
  by (cases t; simp add: select_item_votes_def)+

lemma find_append_None:
  "find P xs = None \<Longrightarrow> find P (xs @ ys) = find P ys"
  by (induction xs) (auto split: if_splits)

lemma filter_fresh_key:
  "\<forall>r \<in> set rows. k r \<noteq> x \<Longrightarrow> filter (\<lambda>r. k r \<noteq> x) rows = rows"
  by (induction rows) auto

lemma db_update_twice:
  assumes "\<And>r. P (g r) = P r"
  shows "db_update P f (db_update P g rows) = db_update P (\<lambda>r. f (g r)) rows"
  using assms by (induction rows) (auto simp: db_update_def)

lemma db_update_same: "(\<And>r. f r = r) \<Longrightarrow> db_update P f rows = rows"
  by (induction rows) (auto simp: db_update_def)

lemma update_item_votes_back:
  "posts (update_item_votes (update_item_votes d t delta i) t (- delta) i) = posts d \<and>
   comments (update_item_votes (update_item_votes d t delta i) t (- delta) i) = comments d"
  by (cases t) (simp_all add: update_item_votes_def db_update_twice db_update_same)

lemma same_vote_twice:
  assumes b: "itemId b = Some i" "i \<noteq> 0" "itemType b = Some (item_type_text t)"
      "voteType b = Some (vote_type_text v)"
    and n: "select_item_votes d t i = Some n"
    and none: "select_vote d (p_id user) i t = None"
  defines "s \<equiv> (if v = Up then 1 else - 1 :: int)"
  defines "row \<equiv> \<lparr>votes_id = next_rowid (votes_seq d) (map votes_id (votes d)),
                    votes_user_id = p_id user, votes_item_id = i,
                    votes_item_type = t, votes_vote_type = v\<rparr>"
  defines "e1 \<equiv> update_item_votes (insert_vote d (p_id user) i t v) t s i"
  shows "castOrUpdateVote d user b =
           (json_ok [(''message'', JStr ''Vote created successfully''), (''votes'', JNum (n + s)),
                     (''userVote'', JStr (vote_type_text v))], e1)"
    and "castOrUpdateVote e1 user b =
           (json_ok [(''message'', JStr ''Vote removed successfully''), (''votes'', JNum n),
                     (''userVote'', JNull)],
            d\<lparr>votes_seq := next_rowid (votes_seq d) (map votes_id (votes d))\<rparr>)"
proof -
  have av1: "apply_vote d (p_id user) i t v = (insert_vote d (p_id user) i t v, s, ''created'')"
    using none by (simp add: apply_vote_def s_def)
  have votes1: "votes (insert_vote d (p_id user) i t v) = votes d @ [row]"
    by (simp add: insert_vote_def row_def Let_def)
  have sel1: "select_vote (insert_vote d (p_id user) i t v) (p_id user) i t = Some row"
    using none by (simp add: select_vote_def db_get_def votes1 find_append_None)
       (simp add: row_def vote_of_def)
  show first: "castOrUpdateVote d user b =
           (json_ok [(''message'', JStr ''Vote created successfully''), (''votes'', JNum (n + s)),
                     (''userVote'', JStr (vote_type_text v))], e1)"
    using castOrUpdateVote_ok [OF b n av1] sel1 by (simp add: e1_def row_def)
  have n1: "select_item_votes e1 t i = Some (n + s)"
    using n by (simp add: e1_def select_item_votes_update_same insert_vote_def Let_def)
  have sel_e1: "select_vote e1 (p_id user) i t = Some row"
    using sel1 by (simp add: e1_def)
  have fresh: "\<forall>r \<in> set (votes d). votes_id r \<noteq> votes_id row"
  proof
    fix r assume "r \<in> set (votes d)"
    then have "votes_id r \<in> set (map votes_id (votes d))" by simp
    from next_rowid_fresh [OF this, of "votes_seq d"] show "votes_id r \<noteq> votes_id row"
      by (simp add: row_def)
  qed
  have votes_e1: "votes e1 = votes d @ [row]"
    by (simp add: e1_def votes1)
  have del: "db_delete (\<lambda>r. votes_id r = votes_id row) (votes e1) = votes d"
    using fresh by (simp add: db_delete_def votes_e1 filter_fresh_key)
  have av2: "apply_vote e1 (p_id user) i t v =
      (e1\<lparr>votes := votes d\<rparr>, - s, ''removed'')"
    using sel_e1 del by (simp add: apply_vote_def) (simp add: row_def s_def)
  have restored: "update_item_votes (e1\<lparr>votes := votes d\<rparr>) t (- s) i =
      d\<lparr>votes_seq := next_rowid (votes_seq d) (map votes_id (votes d))\<rparr>"
    using update_item_votes_back [of d t s i]
    by (cases t) (simp_all add: e1_def insert_vote_def Let_def update_item_votes_def)
  have sel2: "select_vote (e1\<lparr>votes := votes d\<rparr>) (p_id user) i t = None"
    using none by (simp add: select_vote_def)
  show "castOrUpdateVote e1 user b =
           (json_ok [(''message'', JStr ''Vote removed successfully''), (''votes'', JNum n),
                     (''userVote'', JNull)],
            d\<lparr>votes_seq := next_rowid (votes_seq d) (map votes_id (votes d))\<rparr>)"
    using castOrUpdateVote_ok [OF b n1 av2] sel2 restored by simp
qed

section \<open>The claims\<close>

subsection \<open>C1: the counter is the signed sum of the ledger\<close>

text \<open>
  C1. Take an item whose \<^verbatim>\<open>votes\<close> column equals the signed sum of its vote rows (+1 for
  an up vote, -1 for a down vote) in a store whose vote ids are pairwise different, as
  the primary key makes them. After any sequence of calls of the vote handler, by any
  users on any items, that all answer with status 200, the column again equals the
  signed sum of the item's current vote rows.
\<close>

theorem castVotes_keeps_counter_synced:
  assumes "votes_pk d" and "votes_synced d t i"
    and "\<forall>r \<in> set (fst (castVotes d calls)). res_status r = 200"
  shows "votes_synced (snd (castVotes d calls)) t i"
  using castVotes_invariant [OF assms(1,2)] by simp

theorem castVotes_keeps_counter_synced_witness:
  "votes_pk db0 \<and> votes_synced db0 Post 1 \<and>
   map res_status (fst (castVotes db0 scenario)) = [200, 200, 200, 200] \<and>
   select_item_votes (snd (castVotes db0 scenario)) Post 1 = Some 1 \<and>
   signed_sum (snd (castVotes db0 scenario)) Post 1 = 1 \<and>
   votes_synced (snd (castVotes db0 scenario)) Post 1"
proof -
  have h1: "votes_pk db0" by code_simp
  have h2: "votes_synced db0 Post 1" by code_simp
  have h3: "\<forall>r \<in> set (fst (castVotes db0 scenario)). res_status r = 200" by code_simp
  have e1: "map res_status (fst (castVotes db0 scenario)) = [200, 200, 200, 200]" by code_simp
  have e2: "select_item_votes (snd (castVotes db0 scenario)) Post 1 = Some 1" by code_simp
  have c: "votes_synced (snd (castVotes db0 scenario)) Post 1"
    by (rule castVotes_keeps_counter_synced [OF h1 h2 h3])
  then have e3: "signed_sum (snd (castVotes db0 scenario)) Post 1 = 1"
    using e2 by (simp add: votes_synced_def)
  from h1 h2 e1 e2 e3 c show ?thesis by (intro conjI)
qed

subsection \<open>C2: the three cases of a vote\<close>

text \<open>
  C2. For an authenticated user, an existing item (its counter is \<open>n\<close>) and a request
  that names it with a vote type, the handler does one of three things. With no vote of
  the user on the item, a vote row is appended, the delta is +1 for up and -1 for down
  and the action is \<^verbatim>\<open>created\<close>. With a vote of the same type, the row with that id is
  deleted, the delta is -1 if the removed vote was up and +1 otherwise and the action is
  \<^verbatim>\<open>removed\<close>. With a vote of the other type, the type of that row is replaced, the
  delta is +2 if the new type is up and -2 otherwise and the action is \<^verbatim>\<open>updated\<close>. In
  each case the item's counter becomes \<open>n\<close> plus the delta, and the answer has status 200
  with the action in its message. Here \<open>voteDelta\<close> and \<open>action\<close> are the handler's
  variables of these names.
\<close>

theorem castOrUpdateVote_three_cases:
  assumes "itemId b = Some i" and "i \<noteq> 0"
    and "itemType b = Some (item_type_text t)"
    and "voteType b = Some (vote_type_text v)"
    and "select_item_votes d t i = Some n"
    and "apply_vote d (p_id user) i t v = (d1, voteDelta, action)"
  shows "(case select_vote d (p_id user) i t of
            None \<Rightarrow>
              votes (snd (castOrUpdateVote d user b)) =
                votes d @
                  [\<lparr>votes_id = next_rowid (votes_seq d) (map votes_id (votes d)),
                    votes_user_id = p_id user, votes_item_id = i,
                    votes_item_type = t, votes_vote_type = v\<rparr>] \<and>
              voteDelta = (if v = Up then 1 else - 1) \<and> action = ''created''
          | Some existingVote \<Rightarrow>
              if votes_vote_type existingVote = v then
                votes (snd (castOrUpdateVote d user b)) =
                  filter (\<lambda>r. votes_id r \<noteq> votes_id existingVote) (votes d) \<and>
                voteDelta = (if votes_vote_type existingVote = Up then - 1 else 1) \<and>
                action = ''removed''
              else
                votes (snd (castOrUpdateVote d user b)) =
                  map (\<lambda>r. if votes_id r = votes_id existingVote
                            then r\<lparr>votes_vote_type := v\<rparr> else r) (votes d) \<and>
                voteDelta = (if v = Up then 2 else - 2) \<and> action = ''updated'') \<and>
         select_item_votes (snd (castOrUpdateVote d user b)) t i = Some (n + voteDelta) \<and>
         res_status (fst (castOrUpdateVote d user b)) = 200 \<and>
         map_of (res_body (fst (castOrUpdateVote d user b))) ''message'' =
           Some (JStr (''Vote '' @ action @ '' successfully''))"
proof -
  note ok = castOrUpdateVote_ok [OF assms]
  have items: "select_item_votes d1 t i = Some n"
    using apply_vote_items [OF assms(6)] assms(5) select_item_votes_cong [of d1 d t i] by simp
  have counter: "select_item_votes (snd (castOrUpdateVote d user b)) t i = Some (n + voteDelta)"
    by (simp add: ok select_item_votes_update_same items)
  have resp: "res_status (fst (castOrUpdateVote d user b)) = 200"
    "map_of (res_body (fst (castOrUpdateVote d user b))) ''message'' =
       Some (JStr (''Vote '' @ action @ '' successfully''))"
    by (simp_all add: ok json_ok_def)
  have store: "votes (snd (castOrUpdateVote d user b)) = votes d1"
    by (simp add: ok)
  have branches: "(case select_vote d (p_id user) i t of
            None \<Rightarrow>
              votes d1 =
                votes d @
                  [\<lparr>votes_id = next_rowid (votes_seq d) (map votes_id (votes d)),
                    votes_user_id = p_id user, votes_item_id = i,
                    votes_item_type = t, votes_vote_type = v\<rparr>] \<and>
              voteDelta = (if v = Up then 1 else - 1) \<and> action = ''created''
          | Some existingVote \<Rightarrow>
              if votes_vote_type existingVote = v then
                votes d1 =
                  filter (\<lambda>r. votes_id r \<noteq> votes_id existingVote) (votes d) \<and>
                voteDelta = (if votes_vote_type existingVote = Up then - 1 else 1) \<and>
                action = ''removed''
              else
                votes d1 =
                  map (\<lambda>r. if votes_id r = votes_id existingVote
                            then r\<lparr>votes_vote_type := v\<rparr> else r) (votes d) \<and>
                voteDelta = (if v = Up then 2 else - 2) \<and> action = ''updated'')"
  proof (cases "select_vote d (p_id user) i t")
    case None
    with assms(6) show ?thesis
      by (auto simp: apply_vote_def insert_vote_def Let_def)
  next
    case (Some ev)
    with assms(6) show ?thesis
      by (cases "votes_vote_type ev = v")
         (auto simp: apply_vote_def db_delete_def db_update_def)
  qed
  show ?thesis
    unfolding store using branches counter resp by blast
qed

theorem castOrUpdateVote_three_cases_witness:
  "select_vote db0 (p_id alice) 1 Post = None \<and>
   apply_vote db0 (p_id alice) 1 Post Up = (insert_vote db0 1 1 Post Up, 1, ''created'') \<and>
   select_item_votes (snd (castOrUpdateVote db0 alice (vote_request 1 ''post'' ''up''))) Post 1 = Some 1 \<and>
   map votes_vote_type (votes db1) = [Up] \<and>
   snd (apply_vote db1 (p_id alice) 1 Post Up) = (- 1, ''removed'') \<and>
   votes (snd (castOrUpdateVote db1 alice (vote_request 1 ''post'' ''up''))) = [] \<and>
   select_item_votes (snd (castOrUpdateVote db1 alice (vote_request 1 ''post'' ''up''))) Post 1 = Some 0 \<and>
   snd (apply_vote db1 (p_id alice) 1 Post Down) = (- 2, ''updated'') \<and>
   map votes_vote_type (votes (snd (castOrUpdateVote db1 alice (vote_request 1 ''post'' ''down'')))) = [Down] \<and>
   select_item_votes (snd (castOrUpdateVote db1 alice (vote_request 1 ''post'' ''down''))) Post 1 = Some (- 1)"
proof -
  have up: "itemId (vote_request 1 ''post'' ''up'') = Some 1" "(1::int) \<noteq> 0"
    "itemType (vote_request 1 ''post'' ''up'') = Some (item_type_text Post)"
    "voteType (vote_request 1 ''post'' ''up'') = Some (vote_type_text Up)"
    by (simp_all add: vote_request_def)
  have down: "itemId (vote_request 1 ''post'' ''down'') = Some 1" "(1::int) \<noteq> 0"
    "itemType (vote_request 1 ''post'' ''down'') = Some (item_type_text Post)"
    "voteType (vote_request 1 ''post'' ''down'') = Some (vote_type_text Down)"
    by (simp_all add: vote_request_def)
  have n0: "select_item_votes db0 Post 1 = Some 0" by code_simp
  have n1: "select_item_votes db1 Post 1 = Some 1" by code_simp
  have a0: "apply_vote db0 (p_id alice) 1 Post Up = (insert_vote db0 1 1 Post Up, 1, ''created'')"
    by code_simp
  have s0: "select_vote db0 (p_id alice) 1 Post = None" by code_simp
  have v1: "map votes_vote_type (votes db1) = [Up]" by code_simp
  have s1: "select_vote db1 (p_id alice) 1 Post =
      Some \<lparr>votes_id = 1, votes_user_id = 1, votes_item_id = 1, votes_item_type = Post,
            votes_vote_type = Up\<rparr>"
    "votes db1 = [\<lparr>votes_id = 1, votes_user_id = 1, votes_item_id = 1, votes_item_type = Post,
            votes_vote_type = Up\<rparr>]"
    by code_simp+
  have a1: "apply_vote db1 (p_id alice) 1 Post Up =
    (fst (apply_vote db1 (p_id alice) 1 Post Up), fst (snd (apply_vote db1 (p_id alice) 1 Post Up)),
     snd (snd (apply_vote db1 (p_id alice) 1 Post Up)))"
    by simp
  have a2: "apply_vote db1 (p_id alice) 1 Post Down =
    (fst (apply_vote db1 (p_id alice) 1 Post Down), fst (snd (apply_vote db1 (p_id alice) 1 Post Down)),
     snd (snd (apply_vote db1 (p_id alice) 1 Post Down)))"
    by simp
  note c0 = castOrUpdateVote_three_cases [OF up n0 a0]
  note c1 = castOrUpdateVote_three_cases [OF up n1 a1]
  note c2 = castOrUpdateVote_three_cases [OF down n1 a2]
  have r0: "select_item_votes (snd (castOrUpdateVote db0 alice (vote_request 1 ''post'' ''up''))) Post 1 = Some 1"
    using c0 by simp
  have r1: "snd (apply_vote db1 (p_id alice) 1 Post Up) = (- 1, ''removed'')"
    "votes (snd (castOrUpdateVote db1 alice (vote_request 1 ''post'' ''up''))) = []"
    "select_item_votes (snd (castOrUpdateVote db1 alice (vote_request 1 ''post'' ''up''))) Post 1 = Some 0"
    using c1 s1 by (simp_all add: prod_eq_iff)
  have r2: "snd (apply_vote db1 (p_id alice) 1 Post Down) = (- 2, ''updated'')"
    "map votes_vote_type (votes (snd (castOrUpdateVote db1 alice (vote_request 1 ''post'' ''down'')))) = [Down]"
    "select_item_votes (snd (castOrUpdateVote db1 alice (vote_request 1 ''post'' ''down''))) Post 1 = Some (- 1)"
    using c2 s1 by (simp_all add: prod_eq_iff)
  from s0 a0 r0 v1 r1 r2 show ?thesis by (intro conjI)
qed

subsection \<open>C3: the answer to a successful vote\<close>

text \<open>
  C3, as stated, asks for a field \<^verbatim>\<open>action\<close> in the answer. The answer to Alice's up
  vote on post 1 has status 200 and the three fields \<^verbatim>\<open>message\<close>, \<^verbatim>\<open>votes\<close> and
  \<^verbatim>\<open>userVote\<close>; it has no field \<^verbatim>\<open>action\<close>.
\<close>

theorem castOrUpdateVote_no_action_field:
  "res_status (fst (castOrUpdateVote db0 alice (vote_request 1 ''post'' ''up''))) = 200 \<and>
   res_body (fst (castOrUpdateVote db0 alice (vote_request 1 ''post'' ''up''))) =
     [(''message'', JStr ''Vote created successfully''), (''votes'', JNum 1),
      (''userVote'', JStr ''up'')] \<and>
   map_of (res_body (fst (castOrUpdateVote db0 alice (vote_request 1 ''post'' ''up'')))) ''action'' = None"
  by code_simp

text \<open>
  C3, amended. Every answer with status 200 has exactly the fields \<^verbatim>\<open>message\<close>,
  \<^verbatim>\<open>votes\<close> and \<^verbatim>\<open>userVote\<close>, in this order, and no field \<^verbatim>\<open>action\<close>. The message is
  \<^verbatim>\<open>Vote <action> successfully\<close> where the action is one of \<^verbatim>\<open>created\<close>, \<^verbatim>\<open>removed\<close>
  and \<^verbatim>\<open>updated\<close>; \<^verbatim>\<open>votes\<close> is the item's counter before the call plus the delta of the
  call, which is the counter the store holds after the call; \<^verbatim>\<open>userVote\<close> is the type of
  the caller's vote on the item in the store after the call, or \<^verbatim>\<open>null\<close> when there is
  none.
\<close>

theorem castOrUpdateVote_success_body:
  assumes "res_status (fst (castOrUpdateVote d user b)) = 200"
  shows "\<exists>i t v n d1 voteDelta action.
      itemId b = Some i \<and> itemType b = Some (item_type_text t) \<and>
      voteType b = Some (vote_type_text v) \<and>
      select_item_votes d t i = Some n \<and>
      apply_vote d (p_id user) i t v = (d1, voteDelta, action) \<and>
      action \<in> {''created'', ''removed'', ''updated''} \<and>
      res_body (fst (castOrUpdateVote d user b)) =
        [(''message'', JStr (''Vote '' @ action @ '' successfully'')),
         (''votes'', JNum (n + voteDelta)),
         (''userVote'',
            case select_vote (snd (castOrUpdateVote d user b)) (p_id user) i t of
              Some cv \<Rightarrow> JStr (vote_type_text (votes_vote_type cv))
            | None \<Rightarrow> JNull)] \<and>
      select_item_votes (snd (castOrUpdateVote d user b)) t i = Some (n + voteDelta) \<and>
      map_of (res_body (fst (castOrUpdateVote d user b))) ''action'' = None"
proof -
  from assms obtain i t v n where b: "itemId b = Some i" "i \<noteq> 0"
    "itemType b = Some (item_type_text t)" "voteType b = Some (vote_type_text v)"
    "select_item_votes d t i = Some n"
    by (rule castOrUpdateVote_200D)
  obtain d1 voteDelta action where av: "apply_vote d (p_id user) i t v = (d1, voteDelta, action)"
    by (cases "apply_vote d (p_id user) i t v")
  note ok = castOrUpdateVote_ok [OF b av]
  have items: "select_item_votes d1 t i = Some n"
    using apply_vote_items [OF av] b(5) select_item_votes_cong [of d1 d t i] by simp
  have "res_body (fst (castOrUpdateVote d user b)) =
        [(''message'', JStr (''Vote '' @ action @ '' successfully'')),
         (''votes'', JNum (n + voteDelta)),
         (''userVote'',
            case select_vote (snd (castOrUpdateVote d user b)) (p_id user) i t of
              Some cv \<Rightarrow> JStr (vote_type_text (votes_vote_type cv))
            | None \<Rightarrow> JNull)]"
    by (simp add: ok json_ok_def)
  moreover have "select_item_votes (snd (castOrUpdateVote d user b)) t i = Some (n + voteDelta)"
    by (simp add: ok select_item_votes_update_same items)
  moreover have "map_of (res_body (fst (castOrUpdateVote d user b))) ''action'' = None"
    by (simp add: ok json_ok_def)
  ultimately show ?thesis
    using b av apply_vote_action [OF av] by blast
qed

theorem castOrUpdateVote_success_body_witness:
  "res_status (fst (castOrUpdateVote db0 alice (vote_request 1 ''post'' ''up''))) = 200 \<and>
   map fst (res_body (fst (castOrUpdateVote db0 alice (vote_request 1 ''post'' ''up'')))) =
     [''message'', ''votes'', ''userVote''] \<and>
   map_of (res_body (fst (castOrUpdateVote db0 alice (vote_request 1 ''post'' ''up'')))) ''action'' = None"
proof -
  have h: "res_status (fst (castOrUpdateVote db0 alice (vote_request 1 ''post'' ''up''))) = 200"
    by code_simp
  from castOrUpdateVote_success_body [OF h]
  have "map fst (res_body (fst (castOrUpdateVote db0 alice (vote_request 1 ''post'' ''up'')))) =
     [''message'', ''votes'', ''userVote'']"
    and "map_of (res_body (fst (castOrUpdateVote db0 alice (vote_request 1 ''post'' ''up'')))) ''action'' = None"
    by auto
  with h show ?thesis by (intro conjI)
qed

subsection \<open>C4: the same vote twice\<close>

text \<open>
  C4. A user without a vote on an existing item who casts the same vote type twice in
  succession is back in the state before the first vote: the first call moves the counter
  by one, after the second call the counter has its old value (the two deltas sum to
  zero), the user has no vote row on the item, the second answer carries
  \<^verbatim>\<open>userVote = null\<close>, and the store differs from the one before the first call in
  nothing but the row id sequence of the \<^verbatim>\<open>votes\<close> table.
\<close>

theorem same_vote_twice_restores:
  assumes "itemId b = Some i" and "i \<noteq> 0"
    and "itemType b = Some (item_type_text t)"
    and "voteType b = Some (vote_type_text v)"
    and "select_item_votes d t i = Some n"
    and "select_vote d (p_id user) i t = None"
  shows "let d1 = snd (castOrUpdateVote d user b);
             r2 = fst (castOrUpdateVote d1 user b);
             d2 = snd (castOrUpdateVote d1 user b)
         in res_status (fst (castOrUpdateVote d user b)) = 200 \<and>
            select_item_votes d1 t i = Some (n + (if v = Up then 1 else - 1)) \<and>
            res_status r2 = 200 \<and>
            select_item_votes d2 t i = Some n \<and>
            select_vote d2 (p_id user) i t = None \<and>
            map_of (res_body r2) ''userVote'' = Some JNull \<and>
            d2\<lparr>votes_seq := votes_seq d\<rparr> = d"
proof -
  note twice = same_vote_twice [OF assms]
  have "select_item_votes (snd (castOrUpdateVote d user b)) t i =
      Some (n + (if v = Up then 1 else - 1))"
    using assms(5)
    by (simp add: twice(1) select_item_votes_update_same insert_vote_def Let_def)
  moreover have "select_item_votes (d\<lparr>votes_seq := next_rowid (votes_seq d) (map votes_id (votes d))\<rparr>) t i = Some n"
    using assms(5) by simp
  moreover have "select_vote (d\<lparr>votes_seq := next_rowid (votes_seq d) (map votes_id (votes d))\<rparr>) (p_id user) i t = None"
    using assms(6) by (simp add: select_vote_def)
  ultimately show ?thesis
    by (simp add: Let_def twice json_ok_def)
qed

theorem same_vote_twice_restores_witness:
  "select_vote db0 (p_id alice) 1 Post = None \<and>
   select_item_votes db0 Post 1 = Some 0 \<and>
   select_item_votes db1 Post 1 = Some 1 \<and>
   select_item_votes (snd (castOrUpdateVote db1 alice (vote_request 1 ''post'' ''up''))) Post 1 = Some 0 \<and>
   select_vote (snd (castOrUpdateVote db1 alice (vote_request 1 ''post'' ''up''))) (p_id alice) 1 Post = None \<and>
   map_of (res_body (fst (castOrUpdateVote db1 alice (vote_request 1 ''post'' ''up'')))) ''userVote'' = Some JNull \<and>
   (snd (castOrUpdateVote db1 alice (vote_request 1 ''post'' ''up'')))\<lparr>votes_seq := votes_seq db0\<rparr> = db0"
proof -
  have up: "itemId (vote_request 1 ''post'' ''up'') = Some 1" "(1::int) \<noteq> 0"
    "itemType (vote_request 1 ''post'' ''up'') = Some (item_type_text Post)"
    "voteType (vote_request 1 ''post'' ''up'') = Some (vote_type_text Up)"
    by (simp_all add: vote_request_def)
  have n0: "select_item_votes db0 Post 1 = Some 0" by code_simp
  have s0: "select_vote db0 (p_id alice) 1 Post = None" by code_simp
  from same_vote_twice_restores [OF up n0 s0] n0 s0 show ?thesis
    by (simp add: Let_def db1_def)
qed

end
